theory Spec2Isabelle
  imports Main "HOL-Library.Multiset" "HOL-Library.Char_ord" "HOL-Library.List_Lexorder"
begin

section \<open>Values and errors of the JavaScript sources\<close>

text \<open>
  A BigInt is an unbounded integer (\<open>int\<close>). A field that an object may lack, and a hook
  result that has not resolved yet, is an \<open>option\<close>: \<open>None\<close> stands for
  \<^verbatim>\<open>undefined\<close>/\<^verbatim>\<open>null\<close>. Every exception is a value of \<open>js_error\<close>.
\<close>

datatype js_error =
    Error        \<comment> \<open>\<^verbatim>\<open>throw new Error()\<close>\<close>
  | TypeError    \<comment> \<open>BigInt arithmetic on \<^verbatim>\<open>undefined\<close>, property read of \<^verbatim>\<open>undefined\<close>\<close>
  | RangeError   \<comment> \<open>BigInt division by zero\<close>

text \<open>BigInt division truncates toward zero and throws on a zero divisor.\<close>

definition bigint_div :: "int \<Rightarrow> int \<Rightarrow> js_error + int" where
  "bigint_div a b =
     (if b = 0 then Inl RangeError
      else Inr (sgn a * sgn b * (\<bar>a\<bar> div \<bar>b\<bar>)))"

text \<open>\<^verbatim>\<open>s.endsWith(suffix)\<close>\<close>

definition endsWith :: "string \<Rightarrow> string \<Rightarrow> bool" where
  "endsWith s sfx \<longleftrightarrow>
     length sfx \<le> length s \<and> drop (length s - length sfx) s = sfx"


section \<open>treasury-dialog.js\<close>

subsection \<open>useChainlinkUsdcToEthConverter\<close>

text \<open>
  The hook reads \<^verbatim>\<open>latestAnswer\<close> (an \<^verbatim>\<open>int256\<close>) from the price feed. Its argument here
  is the value of that read: \<open>None\<close> while it is unavailable. The result is the converter
  closure, or \<open>None\<close> for the bare \<^verbatim>\<open>return\<close>.
\<close>

definition useChainlinkUsdcToEthConverter ::
  "int option \<Rightarrow> (int \<Rightarrow> js_error + int) option" where
  "useChainlinkUsdcToEthConverter rate =
     (case rate of
        None \<Rightarrow> None
      | Some r \<Rightarrow> Some (\<lambda>usdc. bigint_div (usdc * 10 ^ 23) r))"


subsection \<open>useAssetsDeployed: the merge of the requested assets\<close>

text \<open>
  An asset is an object with a \<^verbatim>\<open>currency\<close> tag and either an \<^verbatim>\<open>amount\<close> (a BigInt) or,
  for the nouns token, the list \<^verbatim>\<open>tokens\<close> of transferred token ids.
\<close>

record asset =
  currency :: string
  amount :: "int option"
  tokens :: "nat list option"

text \<open>\<^verbatim>\<open>xs.find(p)\<close>\<close>

fun find_js :: "('a \<Rightarrow> bool) \<Rightarrow> 'a list \<Rightarrow> 'a option" where
  "find_js p [] = None"
| "find_js p (x # xs) = (if p x then Some x else find_js p xs)"

text \<open>
  The reducer of \<^verbatim>\<open>getRequestedAssets(transactions).reduce(..., [])\<close>. The sum
  \<^verbatim>\<open>ethAmount + asset.amount\<close> throws a TypeError when \<^verbatim>\<open>asset.amount\<close> is undefined.
\<close>

definition mergeAsset :: "asset list \<Rightarrow> asset \<Rightarrow> js_error + asset list" where
  "mergeAsset assets a =
     (if endsWith (currency a) ''eth'' then
        (let ethAmount =
               (case find_js (\<lambda>e. currency e = ''eth'') assets of
                  None \<Rightarrow> 0
                | Some e \<Rightarrow> (case amount e of None \<Rightarrow> 0 | Some v \<Rightarrow> v))
         in case amount a of
              None \<Rightarrow> Inl TypeError
            | Some v \<Rightarrow>
                Inr (\<lparr>currency = ''eth'', amount = Some (ethAmount + v), tokens = None\<rparr>
                     # filter (\<lambda>e. currency e \<noteq> ''eth'') assets))
      else Inr (assets @ [a]))"

text \<open>\<^verbatim>\<open>xs.reduce(f, acc)\<close> with a reducer that may throw: the first exception ends the loop.\<close>

fun reduce_js :: "('b \<Rightarrow> 'a \<Rightarrow> js_error + 'b) \<Rightarrow> 'b \<Rightarrow> 'a list \<Rightarrow> js_error + 'b" where
  "reduce_js f acc [] = Inr acc"
| "reduce_js f acc (x # xs) =
     (case f acc x of Inl e \<Rightarrow> Inl e | Inr acc' \<Rightarrow> reduce_js f acc' xs)"

text \<open>
  The value the hook stores with \<^verbatim>\<open>setAssets\<close>, as a function of the list that
  \<^verbatim>\<open>getRequestedAssets\<close> returned.
\<close>

definition useAssetsDeployed :: "asset list \<Rightarrow> js_error + asset list" where
  "useAssetsDeployed requested = reduce_js mergeAsset [] requested"

text \<open>
  Modelled from the spec: \<^verbatim>\<open>getRequestedAssets\<close> (\<^verbatim>\<open>extractAmounts\<close> of
  utils/transactions.js), whose source is not available. From the requested transfers
  of the parsed transactions it returns one asset per currency: the amounts of the same
  currency are merged by summation, and for the nouns token the transferred token ids
  are retained.
\<close>

definition mergeAmounts :: "int option list \<Rightarrow> int option" where
  "mergeAmounts xs = foldr (combine_options (+)) xs None"

definition mergeTokens :: "nat list option list \<Rightarrow> nat list option" where
  "mergeTokens xs = foldr (combine_options (@)) xs None"

definition requestedAsset :: "asset list \<Rightarrow> string \<Rightarrow> asset" where
  "requestedAsset transfers c =
     (let group = filter (\<lambda>t. currency t = c) transfers
      in \<lparr>currency = c, amount = mergeAmounts (map amount group),
          tokens = mergeTokens (map tokens group)\<rparr>)"

definition getRequestedAssets :: "asset list \<Rightarrow> asset list" where
  "getRequestedAssets transfers =
     map (requestedAsset transfers) (remdups (map currency transfers))"


subsection \<open>useBalances and the rows of the asset overview\<close>

text \<open>Each balance is \<open>None\<close> until its own read resolves.\<close>

record balances =
  treasuryEth :: "int option"
  daoProxyEth :: "int option"
  tokenBuyerEth :: "int option"
  treasuryUsdc :: "int option"
  treasuryWeth :: "int option"
  treasuryReth :: "int option"
  treasurySteth :: "int option"
  treasuryWsteth :: "int option"
  forkEscrowNouns :: "int option"
  treasuryNouns :: "int option"

record overview_row =
  label :: string
  formatting :: "string option"
  row_amount :: "int option"

definition assetOverviewRows :: "balances \<Rightarrow> overview_row list" where
  "assetOverviewRows b =
     [ \<lparr>label = ''ETH'', formatting = Some ''eth'', row_amount = treasuryEth b\<rparr>,
       \<lparr>label = ''stETH'', formatting = Some ''eth'', row_amount = treasurySteth b\<rparr>,
       \<lparr>label = ''USDC'', formatting = Some ''usdc'', row_amount = treasuryUsdc b\<rparr>,
       \<lparr>label = ''rETH'', formatting = Some ''eth'', row_amount = treasuryReth b\<rparr>,
       \<lparr>label = ''wETH'', formatting = Some ''eth'', row_amount = treasuryWeth b\<rparr>,
       \<lparr>label = ''wstETH'', formatting = Some ''eth'', row_amount = treasuryWsteth b\<rparr>,
       \<lparr>label = ''Nouns'', formatting = None, row_amount = treasuryNouns b\<rparr> ]"


subsection \<open>Content: what is rendered\<close>

text \<open>
  The rendered tree keeps, for each value cell, which formatter is called and with which
  arguments; the formatters themselves (locale strings, tooltips) are outside this file.
\<close>

datatype element =
    FormattedEth "int option"
      \<comment> \<open>\<^verbatim>\<open><FormattedEthWithConditionalTooltip value={...} />\<close>\<close>
  | Usdc int "int option"
      \<comment> \<open>\<^verbatim>\<open>formatUsdc(amount)\<close> and, when a converter exists, the hint \<^verbatim>\<open>convertUsdcToEth(amount)\<close>\<close>
  | Number int
      \<comment> \<open>\<^verbatim>\<open>Number(amount)\<close>\<close>
  | NounCount nat
      \<comment> \<open>\<^verbatim>\<open>{count} Noun(s)\<close>\<close>

text \<open>
  The USDC cell: \<^verbatim>\<open>formatUsdc\<close> calls \<^verbatim>\<open>formatUnits(usdc, 6)\<close>, which reads
  \<^verbatim>\<open>usdc.toString()\<close> and so throws a TypeError on \<^verbatim>\<open>undefined\<close>; the hint is rendered only
  when the converter is not null.
\<close>

definition usdcCell ::
  "(int \<Rightarrow> js_error + int) option \<Rightarrow> int option \<Rightarrow> js_error + element" where
  "usdcCell convertUsdcToEth amt =
     (case amt of
        None \<Rightarrow> Inl TypeError
      | Some v \<Rightarrow>
          (case convertUsdcToEth of
             None \<Rightarrow> Inr (Usdc v None)
           | Some conv \<Rightarrow>
               (case conv v of Inl e \<Rightarrow> Inl e | Inr w \<Rightarrow> Inr (Usdc v (Some w)))))"

text \<open>
  One row of the asset overview: the \<^verbatim>\<open><dt>\<close> with the label is always there, the
  \<^verbatim>\<open><dd>\<close> holds \<^verbatim>\<open>null\<close> while the amount is null.
\<close>

definition overviewCell ::
  "(int \<Rightarrow> js_error + int) option \<Rightarrow> overview_row \<Rightarrow> js_error + element option" where
  "overviewCell convertUsdcToEth r =
     (case row_amount r of
        None \<Rightarrow> Inr None
      | Some v \<Rightarrow>
          (if formatting r = Some ''eth'' then Inr (Some (FormattedEth (Some v)))
           else if formatting r = Some ''usdc'' then
             (case usdcCell convertUsdcToEth (Some v) of
                Inl e \<Rightarrow> Inl e | Inr c \<Rightarrow> Inr (Some c))
           else Inr (Some (Number v))))"

text \<open>\<^verbatim>\<open>xs.map(f)\<close> with a callback that may throw.\<close>

fun map_js :: "('a \<Rightarrow> js_error + 'b) \<Rightarrow> 'a list \<Rightarrow> js_error + 'b list" where
  "map_js f [] = Inr []"
| "map_js f (x # xs) =
     (case f x of
        Inl e \<Rightarrow> Inl e
      | Inr y \<Rightarrow> (case map_js f xs of Inl e \<Rightarrow> Inl e | Inr ys \<Rightarrow> Inr (y # ys)))"

definition renderAssetOverview ::
  "(int \<Rightarrow> js_error + int) option \<Rightarrow> balances \<Rightarrow> js_error + (string \<times> element option) list" where
  "renderAssetOverview convertUsdcToEth b =
     map_js (\<lambda>r. case overviewCell convertUsdcToEth r of
                   Inl e \<Rightarrow> Inl e | Inr c \<Rightarrow> Inr (label r, c))
            (assetOverviewRows b)"


text \<open>
  One entry of the assets-deployed list: the \<^verbatim>\<open>switch (asset.currency)\<close> with its
  \<^verbatim>\<open>default: throw new Error()\<close>. Reading \<^verbatim>\<open>asset.tokens.length\<close> throws a TypeError when
  the asset has no \<^verbatim>\<open>tokens\<close>.
\<close>

definition renderDeployedAsset ::
  "(int \<Rightarrow> js_error + int) option \<Rightarrow> asset \<Rightarrow> js_error + element" where
  "renderDeployedAsset convertUsdcToEth a =
     (if currency a = ''eth'' then Inr (FormattedEth (amount a))
      else if currency a = ''usdc'' then usdcCell convertUsdcToEth (amount a)
      else if currency a = ''nouns'' then
        (case tokens a of
           None \<Rightarrow> Inl TypeError
         | Some ts \<Rightarrow> Inr (NounCount (length ts)))
      else Inl Error)"

definition renderAssetsDeployed ::
  "(int \<Rightarrow> js_error + int) option \<Rightarrow> asset list \<Rightarrow> js_error + element list" where
  "renderAssetsDeployed convertUsdcToEth assets =
     map_js (renderDeployedAsset convertUsdcToEth) assets"

text \<open>
  The activity section: both \<^verbatim>\<open><dt>\<close> labels are fixed, each \<^verbatim>\<open><dd>\<close> is filled once its
  value is not null.
\<close>

record activity =
  proceedsCell :: "element option"
  deployedCell :: "element list option"

definition renderActivity ::
  "(int \<Rightarrow> js_error + int) option \<Rightarrow> int option \<Rightarrow> asset list option \<Rightarrow> js_error + activity" where
  "renderActivity convertUsdcToEth auctionProceeds assetsDeployed =
     (let p = (case auctionProceeds of
                 None \<Rightarrow> None
               | Some v \<Rightarrow> Some (FormattedEth (Some v)))
      in case assetsDeployed of
           None \<Rightarrow> Inr \<lparr>proceedsCell = p, deployedCell = None\<rparr>
         | Some assets \<Rightarrow>
             (case renderAssetsDeployed convertUsdcToEth assets of
                Inl e \<Rightarrow> Inl e
              | Inr cells \<Rightarrow> Inr \<lparr>proceedsCell = p, deployedCell = Some cells\<rparr>))"

text \<open>
  The section "Other contracts": each \<^verbatim>\<open><dt>\<close>/\<^verbatim>\<open><dd>\<close> pair is inside its own
  \<^verbatim>\<open>x != null && (...)\<close>.
\<close>

definition renderOtherContracts :: "balances \<Rightarrow> (string \<times> element) list" where
  "renderOtherContracts b =
     (case tokenBuyerEth b of
        None \<Rightarrow> []
      | Some v \<Rightarrow> [(''Token Buyer'', FormattedEth (Some v))])
     @ (case daoProxyEth b of
          None \<Rightarrow> []
        | Some v \<Rightarrow> [(''DAO Proxy'', FormattedEth (Some v))])
     @ (case forkEscrowNouns b of
          None \<Rightarrow> []
        | Some v \<Rightarrow> [(''Fork Escrow'', Number v)])"

record view =
  assetOverview :: "(string \<times> element option) list"
  recentActivity :: "activity option"
  otherContracts :: "(string \<times> element) list"

text \<open>
  The component, as a function of what its hooks returned: the balances, the oracle rate,
  the two activity aggregates and the feature flag. An exception thrown while a section
  is rendered ends the render.
\<close>

definition Content ::
  "balances \<Rightarrow> int option \<Rightarrow> int option \<Rightarrow> asset list option \<Rightarrow> bool \<Rightarrow> js_error + view" where
  "Content b rate auctionProceeds assetsDeployed showRecentActivity =
     (let convertUsdcToEth = useChainlinkUsdcToEthConverter rate
      in case renderAssetOverview convertUsdcToEth b of
           Inl e \<Rightarrow> Inl e
         | Inr rows \<Rightarrow>
             (if showRecentActivity then
                (case renderActivity convertUsdcToEth auctionProceeds assetsDeployed of
                   Inl e \<Rightarrow> Inl e
                 | Inr act \<Rightarrow>
                     Inr \<lparr>assetOverview = rows, recentActivity = Some act,
                          otherContracts = renderOtherContracts b\<rparr>)
              else Inr \<lparr>assetOverview = rows, recentActivity = None,
                        otherContracts = renderOtherContracts b\<rparr>))"


subsection \<open>useAuctionProceeds\<close>

text \<open>
  An auction of the subgraph. Its \<^verbatim>\<open>amount\<close> (here \<open>auction_amount\<close>, the name
  \<open>amount\<close> being the asset's) is a BigInt scalar, which the subgraph sends as a decimal
  string and \<^verbatim>\<open>BigInt(amount)\<close> reads back: the field holds that integer.
\<close>

record auction =
  settled :: bool
  startTime :: nat
  auction_amount :: int

datatype orderDirection = asc | desc

text \<open>The arguments of the \<^verbatim>\<open>auctions(...)\<close> query; \<^verbatim>\<open>orderBy\<close> is always \<^verbatim>\<open>startTime\<close>.\<close>

record auctions_query =
  where_settled :: bool
  direction :: orderDirection
  first :: nat

definition auctionsQuery :: "nat \<Rightarrow> auctions_query" where
  "auctionsQuery days = \<lparr>where_settled = True, direction = desc, first = days\<rparr>"

text \<open>
  Modelled from the spec: the subgraph client \<^verbatim>\<open>queryNounsSubgraph\<close> (nouns-subgraph.js) and
  the subgraph behind it, whose sources are not available. The answer holds the auctions
  that pass the \<^verbatim>\<open>where\<close> filter, ordered by start time in the asked direction, cut to
  the first \<^verbatim>\<open>first\<close> of them.
\<close>

definition queryNounsSubgraph :: "auctions_query \<Rightarrow> auction list \<Rightarrow> auction list" where
  "queryNounsSubgraph q db =
     take (first q)
       ((case direction q of asc \<Rightarrow> (\<lambda>xs. xs) | desc \<Rightarrow> rev)
          (sort_key startTime (filter (\<lambda>a. settled a = where_settled q) db)))"

text \<open>\<^verbatim>\<open>auctions.reduce((sum, { amount }) => sum + BigInt(amount), BigInt(0))\<close>\<close>

definition sumAmounts :: "auction list \<Rightarrow> int" where
  "sumAmounts auctions = foldl (\<lambda>sum a. sum + auction_amount a) 0 auctions"

definition useAuctionProceeds :: "nat \<Rightarrow> auction list \<Rightarrow> int" where
  "useAuctionProceeds days db = sumAmounts (queryNounsSubgraph (auctionsQuery days) db)"

text \<open>
  \<^verbatim>\<open>searchParams.get("timeframe") ?? 30\<close>, the day count that \<^verbatim>\<open>Content\<close> passes as
  \<^verbatim>\<open>days\<close>.
\<close>

definition activityDayCount :: "nat option \<Rightarrow> nat" where
  "activityDayCount timeframe = (case timeframe of None \<Rightarrow> 30 | Some d \<Rightarrow> d)"


section \<open>The members screen\<close>

text \<open>
  A member of the roster, and the annotated copy the screen lists: the flags
  \<^verbatim>\<open>isBlocked\<close> and \<^verbatim>\<open>isStarred\<close> are derived by the screen, \<open>False\<close> stands for a flag
  the object does not have.
\<close>

record member =
  memberId :: string
  displayName :: string
  walletAddress :: string
  ensName :: "string option"
  profilePicture :: "string option"
  onlineStatus :: string

record annotated = member +
  isBlocked :: bool
  isStarred :: bool

text \<open>The spread \<^verbatim>\<open>{ ...m }\<close> of a roster member.\<close>

definition spread :: "member \<Rightarrow> annotated" where
  "spread m =
     \<lparr>memberId = memberId m, displayName = displayName m,
      walletAddress = walletAddress m, ensName = ensName m,
      profilePicture = profilePicture m, onlineStatus = onlineStatus m,
      isBlocked = False, isStarred = False\<rparr>"

text \<open>The callback of \<^verbatim>\<open>members.map\<close>.\<close>

definition annotate ::
  "member \<Rightarrow> (string \<Rightarrow> bool) \<Rightarrow> string list \<Rightarrow> member \<Rightarrow> annotated" where
  "annotate me selectIsUserBlocked starredUserIds m =
     (if memberId m = memberId me then
        (spread m)\<lparr>displayName := displayName m @ '' (you)''\<rparr>
      else if selectIsUserBlocked (memberId m) then (spread m)\<lparr>isBlocked := True\<rparr>
      else if memberId m \<in> set starredUserIds then (spread m)\<lparr>isStarred := True\<rparr>
      else spread m)"

text \<open>
  The text of the input is a JavaScript string, a sequence of UTF-16 code units: its
  \<^verbatim>\<open>length\<close> counts code units, and \<^verbatim>\<open>String.prototype.trim\<close> removes from both ends the
  code points WhiteSpace and LineTerminator of ECMAScript, each of them one code unit:
  tab, line feed, vertical tab, form feed, carriage return, space, U+00A0, U+1680,
  U+2000 to U+200A, U+2028, U+2029, U+202F, U+205F, U+3000 and U+FEFF.
\<close>

type_synonym code_units = "nat list"

definition isWhiteSpace :: "nat \<Rightarrow> bool" where
  "isWhiteSpace c \<longleftrightarrow>
     c \<in> set [0x0009, 0x000A, 0x000B, 0x000C, 0x000D, 0x0020, 0x00A0, 0x1680,
              0x2000, 0x2001, 0x2002, 0x2003, 0x2004, 0x2005, 0x2006, 0x2007,
              0x2008, 0x2009, 0x200A, 0x2028, 0x2029, 0x202F, 0x205F, 0x3000, 0xFEFF]"

definition trim :: "code_units \<Rightarrow> code_units" where
  "trim s = rev (dropWhile isWhiteSpace (rev (dropWhile isWhiteSpace s)))"

text \<open>
  Modelled from the spec: \<^verbatim>\<open>sort\<close> of \<^verbatim>\<open>Shades.utils.array\<close>, whose source is not
  available. It sorts a copy of the list by the comparator, a function to a number that
  is negative, zero or positive; elements that compare equal keep their order.
\<close>

fun insert_sorted :: "('a \<Rightarrow> 'a \<Rightarrow> int) \<Rightarrow> 'a \<Rightarrow> 'a list \<Rightarrow> 'a list" where
  "insert_sorted cmp x [] = [x]"
| "insert_sorted cmp x (y # ys) =
     (if cmp x y \<le> 0 then x # y # ys else y # insert_sorted cmp x ys)"

fun sort_js :: "('a \<Rightarrow> 'a \<Rightarrow> int) \<Rightarrow> 'a list \<Rightarrow> 'a list" where
  "sort_js cmp [] = []"
| "sort_js cmp (x # xs) = insert_sorted cmp x (sort_js cmp xs)"

text \<open>
  The memoised list. \<^verbatim>\<open>searchUsers\<close> and the comparator that
  \<^verbatim>\<open>createUserDefaultComparator()\<close> returns come from \<^verbatim>\<open>Shades.utils.user\<close>, whose
  source is not available: both are parameters.
\<close>

definition filteredMembers ::
  "(annotated list \<Rightarrow> code_units \<Rightarrow> annotated list) \<Rightarrow> (annotated \<Rightarrow> annotated \<Rightarrow> int) \<Rightarrow>
   member \<Rightarrow> (string \<Rightarrow> bool) \<Rightarrow> string list \<Rightarrow> member list \<Rightarrow> code_units \<Rightarrow>
   annotated list" where
  "filteredMembers searchUsers userDefaultComparator me selectIsUserBlocked starredUserIds
       members deferredPendingInput =
     (let query = trim deferredPendingInput;
          unfilteredMembers = map (annotate me selectIsUserBlocked starredUserIds) members
      in if length query \<le> 1 then sort_js userDefaultComparator unfilteredMembers
         else searchUsers unfilteredMembers query)"


section \<open>Notions used in the statements\<close>

text \<open>The "eth" bucket of a merged list: absent, or one entry with the running total.\<close>

definition ethBucket :: "int option \<Rightarrow> asset list" where
  "ethBucket E =
     (case E of
        None \<Rightarrow> []
      | Some s \<Rightarrow> [\<lparr>currency = ''eth'', amount = Some s, tokens = None\<rparr>])"

text \<open>The sum of the amounts of the assets whose currency tag ends in "eth".\<close>

definition ethTotal :: "asset list \<Rightarrow> int" where
  "ethTotal xs =
     sum_list (map (\<lambda>a. case amount a of None \<Rightarrow> 0 | Some v \<Rightarrow> v)
                 (filter (\<lambda>a. endsWith (currency a) ''eth'') xs))"


text \<open>Lower case of the letters A to Z; every other character is kept.\<close>

definition toLowerCase :: "char \<Rightarrow> char" where
  "toLowerCase c =
     (case map_of (zip ''ABCDEFGHIJKLMNOPQRSTUVWXYZ'' ''abcdefghijklmnopqrstuvwxyz'') c of
        None \<Rightarrow> c
      | Some l \<Rightarrow> l)"

text \<open>
  Modelled from the spec: \<^verbatim>\<open>createDefaultComparator\<close> of \<^verbatim>\<open>Shades.utils.user\<close>, whose
  source is not available. The comparator it returns orders by display name without
  regard to case; names that are equal that way compare as 0.
\<close>

definition createUserDefaultComparator :: "annotated \<Rightarrow> annotated \<Rightarrow> int" where
  "createUserDefaultComparator a b =
     (let x = map toLowerCase (displayName a); y = map toLowerCase (displayName b)
      in if x < y then - 1 else if y < x then 1 else 0)"

text \<open>The code units of a text whose characters are all below U+0100.\<close>

definition codeUnits :: "string \<Rightarrow> code_units" where
  "codeUnits s = map of_char s"

text \<open>\<^verbatim>\<open>s.includes(q)\<close>\<close>

fun includes_js :: "'a list \<Rightarrow> 'a list \<Rightarrow> bool" where
  "includes_js [] q = (q = [])"
| "includes_js (c # cs) q = (take (length q) (c # cs) = q \<or> includes_js cs q)"

text \<open>
  Modelled from the spec: \<^verbatim>\<open>search\<close> of \<^verbatim>\<open>Shades.utils.user\<close>, whose source is not
  available. It returns only the members whose display name, ENS name or address contains
  the query, here in the order of the list.
\<close>

definition searchUsers :: "annotated list \<Rightarrow> code_units \<Rightarrow> annotated list" where
  "searchUsers users query =
     (let hit = (\<lambda>s. includes_js (codeUnits s) query)
      in filter (\<lambda>u. hit (displayName u)
                    \<or> (case ensName u of None \<Rightarrow> False | Some n \<Rightarrow> hit n)
                    \<or> hit (walletAddress u)) users)"

text \<open>The roster and the balances of the scenarios of the spec.\<close>

abbreviation alice :: member where
  "alice \<equiv> \<lparr>memberId = ''1'', displayName = ''Alice'', walletAddress = ''0xa1'',
            ensName = None, profilePicture = None, onlineStatus = ''online''\<rparr>"

abbreviation bob :: member where
  "bob \<equiv> \<lparr>memberId = ''2'', displayName = ''Bob'', walletAddress = ''0xb2'',
          ensName = Some ''bob.eth'', profilePicture = None, onlineStatus = ''offline''\<rparr>"

abbreviation onlyTreasuryEth :: balances where
  "onlyTreasuryEth \<equiv>
     \<lparr>treasuryEth = Some (5 * 10 ^ 18), daoProxyEth = None, tokenBuyerEth = None,
      treasuryUsdc = None, treasuryWeth = None, treasuryReth = None,
      treasurySteth = None, treasuryWsteth = None,
      forkEscrowNouns = None, treasuryNouns = None\<rparr>"


section \<open>Properties\<close>

subsection \<open>BigInt division\<close>

lemma bigint_div_nonneg:
  "0 \<le> a \<Longrightarrow> 0 < b \<Longrightarrow> bigint_div a b = Inr (a div b)"
  by (cases "a = 0") (simp_all add: bigint_div_def)

subsection \<open>The merge of useAssetsDeployed\<close>

lemma endsWith_self: "endsWith s s"
  by (simp add: endsWith_def)

lemma not_family_not_eth: "\<not> endsWith (currency a) ''eth'' \<Longrightarrow> currency a \<noteq> ''eth''"
  using endsWith_self [of "''eth''"] by auto

lemma find_js_none: "\<forall>e\<in>set xs. \<not> p e \<Longrightarrow> find_js p xs = None"
  by (induction xs) auto

lemma filter_all: "\<forall>e\<in>set xs. p e \<Longrightarrow> filter p xs = xs"
  by (induction xs) auto

lemma mergeAsset_family:
  assumes "\<forall>e\<in>set R. currency e \<noteq> ''eth''"
    and "endsWith (currency a) ''eth''" and "amount a = Some v"
  shows "mergeAsset (ethBucket E @ R) a =
           Inr (ethBucket (Some ((case E of None \<Rightarrow> 0 | Some s \<Rightarrow> s) + v)) @ R)"
  using assms
  by (cases E) (simp_all add: mergeAsset_def ethBucket_def find_js_none filter_all)

lemma mergeAsset_family_undefined:
  "endsWith (currency a) ''eth'' \<Longrightarrow> amount a = None \<Longrightarrow> mergeAsset acc a = Inl TypeError"
  by (simp add: mergeAsset_def)

lemma mergeAsset_other:
  "\<not> endsWith (currency a) ''eth'' \<Longrightarrow> mergeAsset acc a = Inr (acc @ [a])"
  by (simp add: mergeAsset_def)

lemma reduce_merge_shape:
  "\<forall>e\<in>set R. currency e \<noteq> ''eth'' \<Longrightarrow>
   reduce_js mergeAsset (ethBucket E @ R) xs = Inr out \<Longrightarrow>
   out = ethBucket (if \<exists>a\<in>set xs. endsWith (currency a) ''eth''
                    then Some ((case E of None \<Rightarrow> 0 | Some s \<Rightarrow> s) + ethTotal xs)
                    else E)
         @ R @ filter (\<lambda>a. \<not> endsWith (currency a) ''eth'') xs"
proof (induction xs arbitrary: E R)
  case Nil
  then show ?case by simp
next
  case (Cons x xs)
  show ?case
  proof (cases "endsWith (currency x) ''eth''")
    case fam: True
    show ?thesis
    proof (cases "amount x")
      case None
      with fam Cons.prems(2) show ?thesis
        by (simp add: mergeAsset_family_undefined)
    next
      case (Some v)
      let ?E = "Some ((case E of None \<Rightarrow> 0 | Some s \<Rightarrow> s) + v)"
      have step: "mergeAsset (ethBucket E @ R) x = Inr (ethBucket ?E @ R)"
        using mergeAsset_family [OF Cons.prems(1) fam Some] .
      with Cons.prems(2) have run: "reduce_js mergeAsset (ethBucket ?E @ R) xs = Inr out"
        by simp
      have total: "ethTotal (x # xs) = v + ethTotal xs"
        using fam Some by (simp add: ethTotal_def)
      have none: "\<not> (\<exists>a\<in>set xs. endsWith (currency a) ''eth'') \<Longrightarrow> ethTotal xs = 0"
        by (simp add: ethTotal_def filter_empty_conv)
      from Cons.IH [OF Cons.prems(1) run] fam total none show ?thesis
        by (auto simp: add.assoc)
    qed
  next
    case other: False
    have R': "\<forall>e\<in>set (R @ [x]). currency e \<noteq> ''eth''"
      using Cons.prems(1) not_family_not_eth [OF other] by simp
    from Cons.prems(2) other
    have run: "reduce_js mergeAsset (ethBucket E @ (R @ [x])) xs = Inr out"
      by (simp add: mergeAsset_other)
    have total: "ethTotal (x # xs) = ethTotal xs"
      using other by (simp add: ethTotal_def)
    from Cons.IH [OF R' run] other total show ?thesis
      by simp
  qed
qed

lemma useAssetsDeployed_shape:
  assumes "useAssetsDeployed requested = Inr out"
  shows "out = ethBucket (if \<exists>a\<in>set requested. endsWith (currency a) ''eth''
                          then Some (ethTotal requested) else None)
               @ filter (\<lambda>a. \<not> endsWith (currency a) ''eth'') requested"
  using reduce_merge_shape [of "[]" None requested out] assms
  by (simp add: useAssetsDeployed_def ethBucket_def)

lemma mergeAsset_returns:
  "(endsWith (currency a) ''eth'' \<longrightarrow> amount a \<noteq> None) \<Longrightarrow> \<exists>acc'. mergeAsset acc a = Inr acc'"
  by (cases "amount a") (simp_all add: mergeAsset_def Let_def)

lemma reduce_merge_returns:
  "\<forall>a\<in>set xs. endsWith (currency a) ''eth'' \<longrightarrow> amount a \<noteq> None \<Longrightarrow>
   \<exists>out. reduce_js mergeAsset acc xs = Inr out"
proof (induction xs arbitrary: acc)
  case Nil
  then show ?case by simp
next
  case (Cons x xs)
  from Cons.prems obtain acc' where "mergeAsset acc x = Inr acc'"
    using mergeAsset_returns [of x acc] by auto
  moreover from Cons.prems have "\<exists>out. reduce_js mergeAsset acc' xs = Inr out"
    by (intro Cons.IH) simp
  ultimately show ?case by simp
qed

lemma useAssetsDeployed_returns:
  "\<forall>a\<in>set requested. endsWith (currency a) ''eth'' \<longrightarrow> amount a \<noteq> None \<Longrightarrow>
   \<exists>out. useAssetsDeployed requested = Inr out"
  unfolding useAssetsDeployed_def by (rule reduce_merge_returns)


text \<open>
  Claim C1. Two assets whose currency tags end in "eth" merge into the single entry
  "eth" whose amount is the sum of the two; the scenario of the spec (an eth transfer of
  2 * 10^18 and a steth transfer of 10^18 give one eth entry of 3 * 10^18) is the witness.
  The asset overview keeps ETH and stETH apart: its first two rows read the fields
  \<open>treasuryEth\<close> and \<open>treasurySteth\<close> of the balances.
\<close>

theorem eth_family_merge:
  assumes "endsWith c1 ''eth''" and "endsWith c2 ''eth''"
  shows "useAssetsDeployed [\<lparr>currency = c1, amount = Some x, tokens = t1\<rparr>,
                            \<lparr>currency = c2, amount = Some y, tokens = t2\<rparr>]
           = Inr [\<lparr>currency = ''eth'', amount = Some (x + y), tokens = None\<rparr>]
         \<and> take 2 (assetOverviewRows b)
           = [\<lparr>label = ''ETH'', formatting = Some ''eth'', row_amount = treasuryEth b\<rparr>,
              \<lparr>label = ''stETH'', formatting = Some ''eth'', row_amount = treasurySteth b\<rparr>]"
  using assms
  by (simp add: useAssetsDeployed_def mergeAsset_def assetOverviewRows_def)

theorem eth_family_merge_witness:
  "endsWith ''eth'' ''eth'' \<and> endsWith ''steth'' ''eth''
   \<and> useAssetsDeployed [\<lparr>currency = ''eth'', amount = Some (2 * 10 ^ 18), tokens = None\<rparr>,
                        \<lparr>currency = ''steth'', amount = Some (1 * 10 ^ 18), tokens = None\<rparr>]
       = Inr [\<lparr>currency = ''eth'', amount = Some (3 * 10 ^ 18), tokens = None\<rparr>]
   \<and> take 2 (assetOverviewRows
        \<lparr>treasuryEth = Some (5 * 10 ^ 18), daoProxyEth = None, tokenBuyerEth = None,
         treasuryUsdc = None, treasuryWeth = None, treasuryReth = None,
         treasurySteth = Some (7 * 10 ^ 18), treasuryWsteth = None,
         forkEscrowNouns = None, treasuryNouns = None\<rparr>)
       = [\<lparr>label = ''ETH'', formatting = Some ''eth'', row_amount = Some (5 * 10 ^ 18)\<rparr>,
          \<lparr>label = ''stETH'', formatting = Some ''eth'', row_amount = Some (7 * 10 ^ 18)\<rparr>]"
proof -
  have h1: "endsWith ''eth'' ''eth''" and h2: "endsWith ''steth'' ''eth''"
    by (simp_all add: endsWith_def)
  show ?thesis
    using h1 h2
      eth_family_merge [OF h1 h2, of "2 * 10 ^ 18" None "1 * 10 ^ 18" None
        "\<lparr>treasuryEth = Some (5 * 10 ^ 18), daoProxyEth = None, tokenBuyerEth = None,
         treasuryUsdc = None, treasuryWeth = None, treasuryReth = None,
         treasurySteth = Some (7 * 10 ^ 18), treasuryWsteth = None,
         forkEscrowNouns = None, treasuryNouns = None\<rparr>"]
    by simp
qed

text \<open>
  The requested assets, one per currency, and the totals of the currencies that end in
  "eth".
\<close>

lemma mergeAmounts_value:
  "(case mergeAmounts xs of None \<Rightarrow> 0 | Some v \<Rightarrow> v)
     = sum_list (map (\<lambda>x. case x of None \<Rightarrow> 0 | Some v \<Rightarrow> v) xs)"
  unfolding mergeAmounts_def
  by (induction xs) (auto simp: combine_options_def split: option.splits)

lemma sum_list_groups:
  fixes f :: "'a \<Rightarrow> int"
  shows "sum_list (map (\<lambda>c. sum_list (map f (filter (\<lambda>t. g t = c) ts))) (remdups (map g ts)))
           = sum_list (map f ts)"
proof -
  let ?G = "\<lambda>ts c. sum_list (map f (filter (\<lambda>t. g t = c) ts))"
  have "sum (?G ts) (g ` set ts) = sum_list (map f ts)"
  proof (induction ts)
    case Nil
    then show ?case by simp
  next
    case (Cons t ts)
    have split: "?G (t # ts) c = (if c = g t then f t else 0) + ?G ts c" for c
      by auto
    have "filter (\<lambda>t'. g t' = g t) ts = []" if "g t \<notin> g ` set ts"
      using that by (force simp: filter_empty_conv image_iff)
    then have absent: "g t \<notin> g ` set ts \<Longrightarrow> ?G ts (g t) = 0"
      by simp
    have "sum (?G (t # ts)) (g ` set (t # ts))
            = sum (\<lambda>c. if c = g t then f t else 0) (insert (g t) (g ` set ts))
              + sum (?G ts) (insert (g t) (g ` set ts))"
      by (simp only: split sum.distrib list.set image_insert)
    also have "sum (\<lambda>c. if c = g t then f t else 0) (insert (g t) (g ` set ts)) = f t"
      by (simp add: sum.delta)
    also have "sum (?G ts) (insert (g t) (g ` set ts)) = sum (?G ts) (g ` set ts)"
      using absent by (cases "g t \<in> g ` set ts") (simp_all add: insert_absorb)
    finally show ?case
      using Cons.IH by simp
  qed
  then show ?thesis
    by (simp add: sum_list_distinct_conv_sum_set)
qed

lemma currency_requestedAsset: "currency (requestedAsset ts c) = c"
  by (simp add: requestedAsset_def Let_def)

lemma currencies_getRequestedAssets:
  "map currency (getRequestedAssets ts) = remdups (map currency ts)"
  by (simp add: getRequestedAssets_def comp_def currency_requestedAsset)

lemma getRequestedAssets_entry:
  "e \<in> set (getRequestedAssets ts) \<Longrightarrow> e = requestedAsset ts (currency e)"
  by (auto simp: getRequestedAssets_def currency_requestedAsset)

lemma ethTotal_getRequestedAssets: "ethTotal (getRequestedAssets ts) = ethTotal ts"
proof -
  let ?fam = "\<lambda>c. endsWith c ''eth''"
  let ?av = "\<lambda>a. case amount a of None \<Rightarrow> (0::int) | Some v \<Rightarrow> v"
  let ?ts = "filter (\<lambda>t. ?fam (currency t)) ts"
  have grp: "?fam c \<Longrightarrow> filter (\<lambda>t. currency t = c) ts = filter (\<lambda>t. currency t = c) ?ts" for c
    by (induction ts) auto
  have val: "?av (requestedAsset ts c) = sum_list (map ?av (filter (\<lambda>t. currency t = c) ts))" for c
    using mergeAmounts_value [of "map amount (filter (\<lambda>t. currency t = c) ts)"]
    by (simp add: requestedAsset_def Let_def comp_def)
  have "filter (\<lambda>a. ?fam (currency a)) (getRequestedAssets ts)
          = map (requestedAsset ts) (filter ?fam (remdups (map currency ts)))"
    by (simp add: getRequestedAssets_def filter_map comp_def currency_requestedAsset)
  also have "filter ?fam (remdups (map currency ts)) = remdups (map currency ?ts)"
  proof -
    have "map currency ?ts = filter ?fam (map currency ts)"
      by (simp add: filter_map comp_def)
    then show ?thesis
      by (simp only: remdups_filter)
  qed
  finally have "ethTotal (getRequestedAssets ts)
      = sum_list (map (\<lambda>c. ?av (requestedAsset ts c)) (remdups (map currency ?ts)))"
    by (simp add: ethTotal_def comp_def)
  also have "\<dots> = sum_list (map (\<lambda>c. sum_list (map ?av (filter (\<lambda>t. currency t = c) ?ts)))
                       (remdups (map currency ?ts)))"
  proof (rule arg_cong [where f = sum_list], rule map_cong [OF refl])
    fix c
    assume "c \<in> set (remdups (map currency ?ts))"
    then have "?fam c" by auto
    with val [of c] grp [of c]
    show "?av (requestedAsset ts c) = sum_list (map ?av (filter (\<lambda>t. currency t = c) ?ts))"
      by simp
  qed
  also have "\<dots> = sum_list (map ?av ?ts)"
    by (rule sum_list_groups)
  finally show ?thesis
    by (simp add: ethTotal_def)
qed


text \<open>
  Claim C4. In the aggregation of the hook, the reducer applied to the list that
  \<^verbatim>\<open>getRequestedAssets\<close> returns, every currency has a single entry of the output.
  The transfers whose currency ends in "eth" are counted under "eth", every other
  transfer under its own currency; the "eth" entry holds the sum of the amounts of the
  former, and the entry of any other currency (usdc, nouns, ...) holds the merged
  amounts, and the joined token ids, of all the transfers with that currency. In the
  witness two usdc transfers and two nouns transfers each give one entry.
\<close>

theorem same_currency_merged:
  assumes "useAssetsDeployed (getRequestedAssets transfers) = Inr out"
  shows "distinct (map currency out)
         \<and> set (map currency out)
           = (\<lambda>t. if endsWith (currency t) ''eth'' then ''eth'' else currency t) ` set transfers
         \<and> (\<forall>e\<in>set out. currency e = ''eth'' \<longrightarrow> amount e = Some (ethTotal transfers))
         \<and> (\<forall>e\<in>set out. currency e \<noteq> ''eth'' \<longrightarrow>
               amount e
                 = mergeAmounts (map amount (filter (\<lambda>t. currency t = currency e) transfers))
               \<and> tokens e
                 = mergeTokens (map tokens (filter (\<lambda>t. currency t = currency e) transfers)))"
proof -
  let ?R = "getRequestedAssets transfers"
  let ?rest = "filter (\<lambda>a. \<not> endsWith (currency a) ''eth'') ?R"
  let ?fam = "\<exists>a\<in>set transfers. endsWith (currency a) ''eth''"
  let ?eth = "\<lparr>currency = ''eth'', amount = Some (ethTotal transfers), tokens = None\<rparr>"
  have curR: "currency ` set ?R = currency ` set transfers"
    using currencies_getRequestedAssets [of transfers, THEN arg_cong, of set] by simp
  have "(\<exists>a\<in>set ?R. endsWith (currency a) ''eth'')
          = (\<exists>c\<in>currency ` set ?R. endsWith c ''eth'')"
    by blast
  also have "\<dots> = ?fam"
    unfolding curR by blast
  finally have famR: "(\<exists>a\<in>set ?R. endsWith (currency a) ''eth'') = ?fam" .
  have out: "out = (if ?fam then [?eth] else []) @ ?rest"
    using useAssetsDeployed_shape [OF assms]
    unfolding famR ethTotal_getRequestedAssets ethBucket_def by simp
  have rest_cur: "\<forall>a\<in>set ?rest. currency a \<noteq> ''eth''"
    by (auto dest: not_family_not_eth)
  have rest_distinct: "distinct (map currency ?rest)"
    by (rule distinct_map_filter) (simp add: currencies_getRequestedAssets)
  have "currency ` set ?rest = {c \<in> currency ` set ?R. \<not> endsWith c ''eth''}"
    by auto
  then have rest_set: "currency ` set ?rest
                    = {c \<in> currency ` set transfers. \<not> endsWith c ''eth''}"
    by (simp only: curR)
  have rest_entry: "e = requestedAsset transfers (currency e)" if "e \<in> set ?rest" for e
    using that by (auto dest: getRequestedAssets_entry)
  have c1: "distinct (map currency out)"
  proof (cases ?fam)
    case True
    with out have "out = ?eth # ?rest" by simp
    with rest_cur rest_distinct show ?thesis by auto
  next
    case False
    with out have "out = ?rest" by simp
    with rest_distinct show ?thesis by simp
  qed
  have img: "(\<lambda>t. if endsWith (currency t) ''eth'' then ''eth'' else currency t) ` set transfers
               = (if ?fam then {''eth''} else {})
                 \<union> {c \<in> currency ` set transfers. \<not> endsWith c ''eth''}"
    by (auto split: if_splits)
  have "set (map currency out) = (if ?fam then {''eth''} else {}) \<union> currency ` set ?rest"
    unfolding out by simp
  then have c2: "set (map currency out)
           = (\<lambda>t. if endsWith (currency t) ''eth'' then ''eth'' else currency t) ` set transfers"
    unfolding rest_set img .
  have c3: "\<forall>e\<in>set out. currency e = ''eth'' \<longrightarrow> amount e = Some (ethTotal transfers)"
  proof (intro ballI impI)
    fix e
    assume "e \<in> set out" and eth: "currency e = ''eth''"
    with out rest_cur have "e = ?eth"
      by (cases ?fam) auto
    then show "amount e = Some (ethTotal transfers)" by simp
  qed
  have c4: "\<forall>e\<in>set out. currency e \<noteq> ''eth'' \<longrightarrow>
               amount e
                 = mergeAmounts (map amount (filter (\<lambda>t. currency t = currency e) transfers))
               \<and> tokens e
                 = mergeTokens (map tokens (filter (\<lambda>t. currency t = currency e) transfers))"
  proof (intro ballI impI)
    fix e
    assume "e \<in> set out" and "currency e \<noteq> ''eth''"
    with out have "e \<in> set ?rest"
      by (cases ?fam) auto
    from rest_entry [OF this]
    have "e = requestedAsset transfers (currency e)" .
    then have "amount e = amount (requestedAsset transfers (currency e))"
      and "tokens e = tokens (requestedAsset transfers (currency e))"
      by simp_all
    then show "amount e
                 = mergeAmounts (map amount (filter (\<lambda>t. currency t = currency e) transfers))
               \<and> tokens e
                 = mergeTokens (map tokens (filter (\<lambda>t. currency t = currency e) transfers))"
      by (simp add: requestedAsset_def Let_def)
  qed
  from c1 c2 c3 c4 show ?thesis
    by (intro conjI)
qed

theorem same_currency_merged_witness:
  "useAssetsDeployed (getRequestedAssets
      [\<lparr>currency = ''usdc'', amount = Some 1000000, tokens = None\<rparr>,
       \<lparr>currency = ''weth'', amount = Some 5, tokens = None\<rparr>,
       \<lparr>currency = ''nouns'', amount = None, tokens = Some [7]\<rparr>,
       \<lparr>currency = ''usdc'', amount = Some 2000000, tokens = None\<rparr>,
       \<lparr>currency = ''eth'', amount = Some 6, tokens = None\<rparr>,
       \<lparr>currency = ''nouns'', amount = None, tokens = Some [8, 9]\<rparr>])
     = Inr [\<lparr>currency = ''eth'', amount = Some 11, tokens = None\<rparr>,
            \<lparr>currency = ''usdc'', amount = Some 3000000, tokens = None\<rparr>,
            \<lparr>currency = ''nouns'', amount = None, tokens = Some [7, 8, 9]\<rparr>]
   \<and> distinct [''eth'', ''usdc'', ''nouns'']"
proof -
  let ?ts = "[\<lparr>currency = ''usdc'', amount = Some 1000000, tokens = None\<rparr>,
       \<lparr>currency = ''weth'', amount = Some 5, tokens = None\<rparr>,
       \<lparr>currency = ''nouns'', amount = None, tokens = Some [7]\<rparr>,
       \<lparr>currency = ''usdc'', amount = Some 2000000, tokens = None\<rparr>,
       \<lparr>currency = ''eth'', amount = Some 6, tokens = None\<rparr>,
       \<lparr>currency = ''nouns'', amount = None, tokens = Some [8, 9]\<rparr>]"
  have req: "getRequestedAssets ?ts
     = [\<lparr>currency = ''weth'', amount = Some 5, tokens = None\<rparr>,
        \<lparr>currency = ''usdc'', amount = Some 3000000, tokens = None\<rparr>,
        \<lparr>currency = ''eth'', amount = Some 6, tokens = None\<rparr>,
        \<lparr>currency = ''nouns'', amount = None, tokens = Some [7, 8, 9]\<rparr>]"
    by (simp add: getRequestedAssets_def requestedAsset_def mergeAmounts_def mergeTokens_def)
  have run: "useAssetsDeployed (getRequestedAssets ?ts)
     = Inr [\<lparr>currency = ''eth'', amount = Some 11, tokens = None\<rparr>,
            \<lparr>currency = ''usdc'', amount = Some 3000000, tokens = None\<rparr>,
            \<lparr>currency = ''nouns'', amount = None, tokens = Some [7, 8, 9]\<rparr>]"
    unfolding req by (simp add: useAssetsDeployed_def mergeAsset_def endsWith_def)
  from same_currency_merged [OF run] run show ?thesis
    by simp
qed

text \<open>
  Claim C10. The list the merge produces has at most one entry with currency "eth", no
  such entry after its first position, and so an "eth" entry, when there is one, is the
  first element. (\<open>useAssetsDeployed_returns\<close> says when the merge produces a list.)
\<close>

theorem eth_bucket_unique_and_first:
  assumes "useAssetsDeployed requested = Inr out"
  shows "length (filter (\<lambda>a. currency a = ''eth'') out) \<le> 1
         \<and> (\<forall>a\<in>set (tl out). currency a \<noteq> ''eth'')
         \<and> ((\<exists>a\<in>set out. currency a = ''eth'') \<longrightarrow> out \<noteq> [] \<and> currency (hd out) = ''eth'')"
proof -
  let ?rest = "filter (\<lambda>a. \<not> endsWith (currency a) ''eth'') requested"
  have rest: "\<forall>a\<in>set ?rest. currency a \<noteq> ''eth''"
    by (auto dest: not_family_not_eth)
  then have none: "filter (\<lambda>a. currency a = ''eth'') ?rest = []"
    by (auto simp: filter_empty_conv)
  show ?thesis
  proof (cases "\<exists>a\<in>set requested. endsWith (currency a) ''eth''")
    case True
    with useAssetsDeployed_shape [OF assms]
    have "out = \<lparr>currency = ''eth'', amount = Some (ethTotal requested), tokens = None\<rparr> # ?rest"
      by (simp add: ethBucket_def)
    with rest none show ?thesis by simp
  next
    case False
    with useAssetsDeployed_shape [OF assms] have "out = ?rest"
      by (simp add: ethBucket_def)
    with rest none show ?thesis
      by (cases ?rest) auto
  qed
qed

theorem eth_bucket_unique_and_first_witness:
  "useAssetsDeployed [\<lparr>currency = ''usdc'', amount = Some 5, tokens = None\<rparr>,
                      \<lparr>currency = ''eth'', amount = Some 2, tokens = None\<rparr>,
                      \<lparr>currency = ''steth'', amount = Some 1, tokens = None\<rparr>]
     = Inr [\<lparr>currency = ''eth'', amount = Some 3, tokens = None\<rparr>,
            \<lparr>currency = ''usdc'', amount = Some 5, tokens = None\<rparr>]
   \<and> length (filter (\<lambda>a. currency a = ''eth'')
       [\<lparr>currency = ''eth'', amount = Some 3, tokens = None\<rparr>,
        \<lparr>currency = ''usdc'', amount = Some (5::int), tokens = None :: nat list option\<rparr>]) \<le> 1
   \<and> currency (hd [\<lparr>currency = ''eth'', amount = Some 3, tokens = None\<rparr>,
        \<lparr>currency = ''usdc'', amount = Some (5::int), tokens = None :: nat list option\<rparr>]) = ''eth''"
proof -
  have run: "useAssetsDeployed [\<lparr>currency = ''usdc'', amount = Some 5, tokens = None\<rparr>,
                      \<lparr>currency = ''eth'', amount = Some 2, tokens = None\<rparr>,
                      \<lparr>currency = ''steth'', amount = Some 1, tokens = None\<rparr>]
     = Inr [\<lparr>currency = ''eth'', amount = Some 3, tokens = None\<rparr>,
            \<lparr>currency = ''usdc'', amount = Some 5, tokens = None\<rparr>]"
    by (simp add: useAssetsDeployed_def mergeAsset_def endsWith_def)
  from eth_bucket_unique_and_first [OF run] run show ?thesis by simp
qed

subsection \<open>The converter of USDC amounts\<close>

lemma bigint_div_zero: "bigint_div a 0 = Inl RangeError"
  by (simp add: bigint_div_def)

lemma converter_errors:
  "useChainlinkUsdcToEthConverter rate = Some conv \<Longrightarrow> conv v = Inl e \<Longrightarrow>
   e = RangeError \<and> rate = Some 0"
  by (auto simp: useChainlinkUsdcToEthConverter_def bigint_div_def
      split: option.splits if_splits)

text \<open>
  Claim C3, as stated, fails: the rate is an \<^verbatim>\<open>int256\<close>. At the rate 0 the converter
  returns no quotient, the BigInt division throws a RangeError; at the rate -3 the
  quotient of 10^23 is truncated toward zero, one above the floor.
\<close>

theorem usdc_to_eth_division_counterexample:
  "map_option (\<lambda>conv. conv 1000000) (useChainlinkUsdcToEthConverter (Some 0))
     = Some (Inl RangeError)
   \<and> map_option (\<lambda>conv. conv 1) (useChainlinkUsdcToEthConverter (Some (- 3)))
     = Some (Inr (- 33333333333333333333333))
   \<and> ((1 * 10 ^ 23) div (- 3) :: int) = - 33333333333333333333334"
  by (simp add: useChainlinkUsdcToEthConverter_def bigint_div_def)

text \<open>
  Claim C3, amended. For every USDC amount \<open>a \<ge> 0\<close> and every available rate \<open>r > 0\<close>
  the converter exists and returns exactly the floor of \<open>a * 10^23 / r\<close>; at the rate 0
  it throws a RangeError. When the rate is unavailable no converter is produced, and a
  USDC amount is rendered without its hint (the second argument of \<open>Usdc\<close>), in the
  asset overview and in the assets-deployed list.
\<close>

theorem usdc_to_eth_conversion:
  assumes "0 \<le> a" and "0 < r"
  shows "map_option (\<lambda>conv. conv a) (useChainlinkUsdcToEthConverter (Some r))
           = Some (Inr ((a * 10 ^ 23) div r))
         \<and> map_option (\<lambda>conv. conv a) (useChainlinkUsdcToEthConverter (Some 0))
           = Some (Inl RangeError)
         \<and> useChainlinkUsdcToEthConverter None = None
         \<and> overviewCell (useChainlinkUsdcToEthConverter None)
              \<lparr>label = ''USDC'', formatting = Some ''usdc'', row_amount = Some a\<rparr>
           = Inr (Some (Usdc a None))
         \<and> renderDeployedAsset (useChainlinkUsdcToEthConverter None)
              \<lparr>currency = ''usdc'', amount = Some a, tokens = None\<rparr>
           = Inr (Usdc a None)"
proof -
  from assms have "bigint_div (a * 10 ^ 23) r = Inr ((a * 10 ^ 23) div r)"
    by (intro bigint_div_nonneg) simp_all
  then show ?thesis
    by (simp add: useChainlinkUsdcToEthConverter_def overviewCell_def usdcCell_def
        renderDeployedAsset_def bigint_div_zero)
qed

theorem usdc_to_eth_conversion_witness:
  "(0::int) \<le> 1000000 \<and> (0::int) < 4 * 10 ^ 14
   \<and> map_option (\<lambda>conv. conv 1000000) (useChainlinkUsdcToEthConverter (Some (4 * 10 ^ 14)))
       = Some (Inr (25 * 10 ^ 13))
   \<and> map_option (\<lambda>conv. conv 1000000) (useChainlinkUsdcToEthConverter (Some 0))
       = Some (Inl RangeError)
   \<and> useChainlinkUsdcToEthConverter None = None
   \<and> overviewCell (useChainlinkUsdcToEthConverter None)
        \<lparr>label = ''USDC'', formatting = Some ''usdc'', row_amount = Some 1000000\<rparr>
       = Inr (Some (Usdc 1000000 None))
   \<and> renderDeployedAsset (useChainlinkUsdcToEthConverter None)
        \<lparr>currency = ''usdc'', amount = Some 1000000, tokens = None\<rparr>
       = Inr (Usdc 1000000 None)"
proof -
  have h1: "(0::int) \<le> 1000000" and h2: "(0::int) < 4 * 10 ^ 14"
    by simp_all
  have q: "((1000000::int) * 10 ^ 23) div (4 * 10 ^ 14) = 25 * 10 ^ 13"
    by simp
  note t = usdc_to_eth_conversion [OF h1 h2, unfolded q]
  from h1 h2 t show ?thesis
    by blast
qed


subsection \<open>Rendering\<close>

lemma usdcCell_not_Error:
  "usdcCell (useChainlinkUsdcToEthConverter rate) amt \<noteq> Inl Error"
  by (auto simp: usdcCell_def useChainlinkUsdcToEthConverter_def bigint_div_def
      split: option.splits sum.splits)

lemma map_js_throws:
  "x \<in> set xs \<Longrightarrow> f x = Inl e \<Longrightarrow> \<exists>e'. map_js f xs = Inl e'"
  by (induction xs) (auto split: sum.splits)

lemma map_js_returns:
  "\<forall>x\<in>set xs. \<exists>y. f x = Inr y \<Longrightarrow> \<exists>ys. map_js f xs = Inr ys"
  by (induction xs) (auto split: sum.splits)

lemma map_js_Inr_map:
  "map_js f xs = Inr ys \<Longrightarrow> (\<And>x y. f x = Inr y \<Longrightarrow> g y = h x) \<Longrightarrow> map g ys = map h xs"
  by (induction xs arbitrary: ys) (auto split: sum.splits)

lemma overviewCell_None_iff:
  "overviewCell c r = Inr cell \<Longrightarrow> (cell = None) = (row_amount r = None)"
  by (cases "row_amount r") (auto simp: overviewCell_def split: if_splits sum.splits)

lemma overviewCell_returns:
  assumes "rate \<noteq> Some 0"
  shows "\<exists>cell. overviewCell (useChainlinkUsdcToEthConverter rate) r = Inr cell"
proof (cases "overviewCell (useChainlinkUsdcToEthConverter rate) r")
  case (Inl e)
  then obtain conv v where "useChainlinkUsdcToEthConverter rate = Some conv" "conv v = Inl e"
    by (auto simp: overviewCell_def usdcCell_def split: option.splits if_splits sum.splits)
  with converter_errors assms show ?thesis
    by blast
next
  case (Inr cell)
  then show ?thesis by simp
qed

text \<open>
  The asset overview is rendered whenever the rate is not 0: no unresolved balance makes
  it throw.
\<close>

lemma renderAssetOverview_returns:
  assumes "rate \<noteq> Some 0"
  shows "\<exists>rows. renderAssetOverview (useChainlinkUsdcToEthConverter rate) b = Inr rows"
  unfolding renderAssetOverview_def
proof (rule map_js_returns, rule ballI)
  fix r
  from overviewCell_returns [OF assms, of r]
  show "\<exists>y. (case overviewCell (useChainlinkUsdcToEthConverter rate) r of
               Inl e \<Rightarrow> Inl e | Inr c \<Rightarrow> Inr (label r, c)) = Inr y"
    by auto
qed

lemma renderOtherContracts_labels:
  "map fst (renderOtherContracts b)
     = map fst (filter (\<lambda>(l, v). v \<noteq> None)
         [(''Token Buyer'', tokenBuyerEth b), (''DAO Proxy'', daoProxyEth b),
          (''Fork Escrow'', forkEscrowNouns b)])"
  by (cases "tokenBuyerEth b"; cases "daoProxyEth b"; cases "forkEscrowNouns b")
     (simp_all add: renderOtherContracts_def)

text \<open>
  Claim C2, as stated, fails: with the treasury ETH balance resolved to 5 * 10^18 and
  every other source unresolved, the asset overview still has its seven rows. The rows
  stETH, USDC, rETH, wETH, wstETH and Nouns keep their label, with an empty value cell.
\<close>

theorem unresolved_row_kept_counterexample:
  "Content onlyTreasuryEth None None None False
     = Inr \<lparr>assetOverview =
              [(''ETH'', Some (FormattedEth (Some (5 * 10 ^ 18)))), (''stETH'', None),
               (''USDC'', None), (''rETH'', None), (''wETH'', None), (''wstETH'', None),
               (''Nouns'', None)],
            recentActivity = None, otherContracts = []\<rparr>
   \<and> renderAssetOverview None onlyTreasuryEth
     \<noteq> Inr [(''ETH'', Some (FormattedEth (Some (5 * 10 ^ 18))))]"
  by (simp add: Content_def useChainlinkUsdcToEthConverter_def renderAssetOverview_def
      assetOverviewRows_def overviewCell_def renderOtherContracts_def)

text \<open>
  Claim C2, amended. A source that has not resolved is shown neither as zero nor as an
  error. In the asset overview the seven labels are always rendered and the value cell of
  a row is empty exactly when its balance is unresolved; in the section "Other contracts"
  a row is there exactly when its balance has resolved; in the activity section the cell
  of the auction proceeds is empty exactly when the proceeds are unresolved and holds
  their amount otherwise, and the cell of the assets deployed is empty exactly when the
  list is unresolved.
\<close>

theorem unresolved_sources_rendering:
  assumes "renderAssetOverview convertUsdcToEth b = Inr rows"
    and "renderActivity convertUsdcToEth auctionProceeds assetsDeployed = Inr act"
  shows "map fst rows = [''ETH'', ''stETH'', ''USDC'', ''rETH'', ''wETH'', ''wstETH'', ''Nouns'']
         \<and> map (\<lambda>r. snd r = None) rows
           = [treasuryEth b = None, treasurySteth b = None, treasuryUsdc b = None,
              treasuryReth b = None, treasuryWeth b = None, treasuryWsteth b = None,
              treasuryNouns b = None]
         \<and> map fst (renderOtherContracts b)
           = map fst (filter (\<lambda>(l, v). v \<noteq> None)
               [(''Token Buyer'', tokenBuyerEth b), (''DAO Proxy'', daoProxyEth b),
                (''Fork Escrow'', forkEscrowNouns b)])
         \<and> renderActivity convertUsdcToEth None None
           = Inr \<lparr>proceedsCell = None, deployedCell = None\<rparr>
         \<and> proceedsCell act = map_option (\<lambda>v. FormattedEth (Some v)) auctionProceeds
         \<and> (proceedsCell act = None) = (auctionProceeds = None)
         \<and> (deployedCell act = None) = (assetsDeployed = None)"
proof -
  let ?f = "\<lambda>r. case overviewCell convertUsdcToEth r of
                   Inl e \<Rightarrow> Inl e | Inr c \<Rightarrow> Inr (label r, c)"
  from assms(1) have run: "map_js ?f (assetOverviewRows b) = Inr rows"
    by (simp add: renderAssetOverview_def)
  have "map fst rows = map label (assetOverviewRows b)"
    by (rule map_js_Inr_map [OF run]) (auto split: sum.splits)
  then have labels:
    "map fst rows = [''ETH'', ''stETH'', ''USDC'', ''rETH'', ''wETH'', ''wstETH'', ''Nouns'']"
    by (simp add: assetOverviewRows_def)
  have "map (\<lambda>r. snd r = None) rows = map (\<lambda>r. row_amount r = None) (assetOverviewRows b)"
    by (rule map_js_Inr_map [OF run]) (auto split: sum.splits dest: overviewCell_None_iff)
  then have cells: "map (\<lambda>r. snd r = None) rows
           = [treasuryEth b = None, treasurySteth b = None, treasuryUsdc b = None,
              treasuryReth b = None, treasuryWeth b = None, treasuryWsteth b = None,
              treasuryNouns b = None]"
    by (simp add: assetOverviewRows_def)
  have empty: "renderActivity convertUsdcToEth None None
               = Inr \<lparr>proceedsCell = None, deployedCell = None\<rparr>"
    by (simp add: renderActivity_def)
  from assms(2)
  have proceeds: "proceedsCell act = map_option (\<lambda>v. FormattedEth (Some v)) auctionProceeds"
    by (cases auctionProceeds; cases assetsDeployed)
       (auto simp: renderActivity_def split: sum.splits)
  then have proceeds_none: "(proceedsCell act = None) = (auctionProceeds = None)"
    by simp
  from assms(2) have deployed_none: "(deployedCell act = None) = (assetsDeployed = None)"
    by (cases assetsDeployed) (auto simp: renderActivity_def Let_def split: sum.splits)
  from labels cells empty proceeds proceeds_none deployed_none
    renderOtherContracts_labels [of b]
  show ?thesis
    by (intro conjI)
qed

theorem unresolved_sources_rendering_witness:
  "renderAssetOverview None onlyTreasuryEth
     = Inr [(''ETH'', Some (FormattedEth (Some (5 * 10 ^ 18)))), (''stETH'', None),
            (''USDC'', None), (''rETH'', None), (''wETH'', None), (''wstETH'', None),
            (''Nouns'', None)]
   \<and> renderActivity None None (Some [])
     = Inr \<lparr>proceedsCell = None, deployedCell = Some []\<rparr>
   \<and> map fst (renderOtherContracts onlyTreasuryEth) = []
   \<and> proceedsCell \<lparr>proceedsCell = None, deployedCell = Some []\<rparr> = None
   \<and> deployedCell \<lparr>proceedsCell = None, deployedCell = Some []\<rparr> \<noteq> None"
proof -
  have run: "renderAssetOverview None onlyTreasuryEth
     = Inr [(''ETH'', Some (FormattedEth (Some (5 * 10 ^ 18)))), (''stETH'', None),
            (''USDC'', None), (''rETH'', None), (''wETH'', None), (''wstETH'', None),
            (''Nouns'', None)]"
    by (simp add: renderAssetOverview_def assetOverviewRows_def overviewCell_def)
  have act: "renderActivity None None (Some [])
     = Inr \<lparr>proceedsCell = None, deployedCell = Some []\<rparr>"
    by (simp add: renderActivity_def renderAssetsDeployed_def)
  from unresolved_sources_rendering [OF run act] run act
  show ?thesis by simp
qed

text \<open>
  Claim C8. An asset of the assets-deployed list whose currency is none of "eth", "usdc",
  "nouns" makes its own entry throw the \<^verbatim>\<open>Error\<close> of the \<^verbatim>\<open>default\<close> branch, so the list is
  not rendered, and neither is the dialog when the activity section is shown. An asset
  whose currency is one of the three never raises that error.
\<close>

theorem unhandled_currency_throws:
  assumes "a \<in> set assets"
    and "currency a \<notin> {''eth'', ''usdc'', ''nouns''}"
    and "currency h \<in> {''eth'', ''usdc'', ''nouns''}"
  shows "renderDeployedAsset convertUsdcToEth a = Inl Error
         \<and> (\<exists>e. renderAssetsDeployed convertUsdcToEth assets = Inl e)
         \<and> (\<exists>e. Content b rate auctionProceeds (Some assets) True = Inl e)
         \<and> renderDeployedAsset (useChainlinkUsdcToEthConverter rate) h \<noteq> Inl Error"
proof -
  from assms(2) have one: "\<And>c. renderDeployedAsset c a = Inl Error"
    by (simp add: renderDeployedAsset_def)
  with assms(1) have all: "\<And>c. \<exists>e. renderAssetsDeployed c assets = Inl e"
    unfolding renderAssetsDeployed_def by (blast intro: map_js_throws)
  then obtain e where
    "renderAssetsDeployed (useChainlinkUsdcToEthConverter rate) assets = Inl e"
    by blast
  then have dialog: "\<exists>e. Content b rate auctionProceeds (Some assets) True = Inl e"
    by (cases "renderAssetOverview (useChainlinkUsdcToEthConverter rate) b")
       (simp_all add: Content_def Let_def renderActivity_def)
  from assms(3) have handled:
    "renderDeployedAsset (useChainlinkUsdcToEthConverter rate) h \<noteq> Inl Error"
    by (auto simp: renderDeployedAsset_def usdcCell_not_Error split: option.splits)
  from one all dialog handled show ?thesis
    by blast
qed

theorem unhandled_currency_throws_witness:
  "renderDeployedAsset None \<lparr>currency = ''dai'', amount = Some 2, tokens = None\<rparr> = Inl Error
   \<and> renderAssetsDeployed None
       [\<lparr>currency = ''eth'', amount = Some 1, tokens = None\<rparr>,
        \<lparr>currency = ''dai'', amount = Some 2, tokens = None\<rparr>] = Inl Error
   \<and> Content onlyTreasuryEth None None
       (Some [\<lparr>currency = ''eth'', amount = Some 1, tokens = None\<rparr>,
              \<lparr>currency = ''dai'', amount = Some 2, tokens = None\<rparr>]) True = Inl Error
   \<and> renderDeployedAsset (useChainlinkUsdcToEthConverter None)
       \<lparr>currency = ''nouns'', amount = None, tokens = Some [11, 12]\<rparr> = Inr (NounCount 2)"
proof -
  let ?dai = "\<lparr>currency = ''dai'', amount = Some 2, tokens = None\<rparr>"
  let ?assets = "[\<lparr>currency = ''eth'', amount = Some 1, tokens = None\<rparr>, ?dai]"
  let ?nouns = "\<lparr>currency = ''nouns'', amount = None, tokens = Some [11, 12]\<rparr>"
  have h1: "?dai \<in> set ?assets"
    by simp
  have h2: "currency ?dai \<notin> {''eth'', ''usdc'', ''nouns''}"
    by simp
  have h3: "currency ?nouns \<in> {''eth'', ''usdc'', ''nouns''}"
    by simp
  have ev: "renderAssetsDeployed None ?assets = Inl Error"
    "Content onlyTreasuryEth None None (Some ?assets) True = Inl Error"
    "renderDeployedAsset (useChainlinkUsdcToEthConverter None) ?nouns = Inr (NounCount 2)"
    by (simp_all add: renderAssetsDeployed_def renderDeployedAsset_def Content_def
        renderActivity_def useChainlinkUsdcToEthConverter_def renderAssetOverview_def
        assetOverviewRows_def overviewCell_def)
  from unhandled_currency_throws [OF h1 h2 h3, where convertUsdcToEth = None
      and b = onlyTreasuryEth and rate = None and auctionProceeds = None] ev
  show ?thesis by simp
qed


subsection \<open>Auction proceeds\<close>

lemma foldl_add_amounts:
  "foldl (\<lambda>sum a. sum + auction_amount a) s xs = s + sum_list (map auction_amount xs)"
  by (induction xs arbitrary: s) simp_all

text \<open>
  Claim C9. The auction proceeds are the sum of \<open>amount\<close> over the settled auctions taken
  in descending order of start time and cut to the first \<open>days\<close> of them, \<open>days\<close> being
  the day count of the activity window (30 when no time frame is given); the sum over no
  auction is 0.
\<close>

theorem auction_proceeds_sum:
  "useAuctionProceeds days db
     = sum_list (map auction_amount
         (take days (rev (sort_key startTime (filter settled db)))))
   \<and> useAuctionProceeds (activityDayCount None) db
     = sum_list (map auction_amount
         (take 30 (rev (sort_key startTime (filter settled db)))))
   \<and> sumAmounts [] = 0
   \<and> useAuctionProceeds days [] = 0"
  by (simp add: useAuctionProceeds_def sumAmounts_def queryNounsSubgraph_def auctionsQuery_def
      activityDayCount_def foldl_add_amounts)

subsection \<open>The sort\<close>

lemma mset_insert_sorted: "mset (insert_sorted cmp x xs) = add_mset x (mset xs)"
  by (induction xs) auto

lemma mset_sort_js: "mset (sort_js cmp xs) = mset xs"
  by (induction xs) (auto simp: mset_insert_sorted)

lemma set_insert_sorted: "set (insert_sorted cmp x xs) = insert x (set xs)"
  by (induction xs) auto

lemma sorted_insert_sorted:
  assumes total: "\<And>a b. cmp a b \<le> 0 \<or> cmp b a \<le> 0"
    and trans: "\<And>a b c. cmp a b \<le> 0 \<Longrightarrow> cmp b c \<le> 0 \<Longrightarrow> cmp a c \<le> 0"
    and "sorted_wrt (\<lambda>a b. cmp a b \<le> 0) xs"
  shows "sorted_wrt (\<lambda>a b. cmp a b \<le> 0) (insert_sorted cmp x xs)"
  using assms(3)
proof (induction xs)
  case Nil
  then show ?case by simp
next
  case (Cons y ys)
  show ?case
  proof (cases "cmp x y \<le> 0")
    case True
    with Cons.prems trans show ?thesis
      by auto
  next
    case False
    with total have "cmp y x \<le> 0"
      by blast
    with False Cons show ?thesis
      by (auto simp: set_insert_sorted)
  qed
qed

lemma sorted_sort_js:
  assumes "\<And>a b. cmp a b \<le> 0 \<or> cmp b a \<le> 0"
    and "\<And>a b c. cmp a b \<le> 0 \<Longrightarrow> cmp b c \<le> 0 \<Longrightarrow> cmp a c \<le> 0"
  shows "sorted_wrt (\<lambda>a b. cmp a b \<le> 0) (sort_js cmp xs)"
  by (induction xs) (simp_all add: sorted_insert_sorted [OF assms])

lemma createUserDefaultComparator_total:
  "createUserDefaultComparator a b \<le> 0 \<or> createUserDefaultComparator b a \<le> 0"
  by (auto simp: createUserDefaultComparator_def Let_def)

lemma createUserDefaultComparator_trans:
  "createUserDefaultComparator a b \<le> 0 \<Longrightarrow> createUserDefaultComparator b c \<le> 0 \<Longrightarrow>
   createUserDefaultComparator a c \<le> 0"
  by (auto simp: createUserDefaultComparator_def Let_def split: if_splits)

lemma trim_white_space: "\<forall>c\<in>set s. isWhiteSpace c \<Longrightarrow> trim s = []"
proof -
  assume "\<forall>c\<in>set s. isWhiteSpace c"
  then have drop: "dropWhile isWhiteSpace s = []"
    by (induction s) simp_all
  show ?thesis
    unfolding trim_def drop by simp
qed

lemma searchUsers_subset: "set (searchUsers xs q) \<subseteq> set xs"
  by (auto simp: searchUsers_def Let_def)


subsection \<open>The annotated and filtered members\<close>

lemma memberId_annotate: "memberId (annotate me blk st m) = memberId m"
  by (simp add: annotate_def spread_def)

lemma annotate_flags:
  "\<not> (isBlocked (annotate me blk st m) \<and> isStarred (annotate me blk st m))"
  by (simp add: annotate_def spread_def)

lemma annotate_blocked:
  "memberId m \<noteq> memberId me \<Longrightarrow> blk (memberId m) \<Longrightarrow>
   annotate me blk st m = (spread m)\<lparr>isBlocked := True\<rparr>"
  by (simp add: annotate_def)

lemma annotate_self:
  "memberId m = memberId me \<Longrightarrow>
   annotate me blk st m = (spread m)\<lparr>displayName := displayName m @ '' (you)''\<rparr>"
  by (simp add: annotate_def)

lemma filteredMembers_short:
  "length (trim input) \<le> 1 \<Longrightarrow>
   filteredMembers search cmp me blk st members input
     = sort_js cmp (map (annotate me blk st) members)"
  by (simp add: filteredMembers_def Let_def)

lemma filteredMembers_subset:
  assumes "\<And>xs q. set (search xs q) \<subseteq> set xs"
  shows "set (filteredMembers search cmp me blk st members input)
           \<subseteq> annotate me blk st ` set members"
proof (cases "length (trim input) \<le> 1")
  case True
  have "set (sort_js cmp (map (annotate me blk st) members))
          = set_mset (mset (map (annotate me blk st) members))"
    by (simp only: mset_sort_js flip: set_mset_mset)
  with True show ?thesis
    by (simp add: filteredMembers_short)
next
  case False
  with assms [of "map (annotate me blk st) members" "trim input"] show ?thesis
    by (simp add: filteredMembers_def Let_def)
qed

text \<open>
  Claim C5. When the trimmed query has at most one code unit, the filter returns the
  annotated roster as a multiset, so every member exactly once (also counted by member
  id); and for a comparator that is total and transitive, the result is sorted by it.
  The witness is the roster of the scenario of the spec, Alice and Bob with Alice the
  viewer, at the query "b" between a no-break space and a line separator.
\<close>

theorem short_query_lists_everyone:
  assumes "length (trim input) \<le> 1"
    and "\<forall>a b. cmp a b \<le> 0 \<or> cmp b a \<le> 0"
    and "\<forall>a b c. cmp a b \<le> 0 \<longrightarrow> cmp b c \<le> 0 \<longrightarrow> cmp a c \<le> 0"
  shows "mset (filteredMembers search cmp me blk st members input)
           = mset (map (annotate me blk st) members)
         \<and> mset (map memberId (filteredMembers search cmp me blk st members input))
           = mset (map memberId members)
         \<and> sorted_wrt (\<lambda>a b. cmp a b \<le> 0)
             (filteredMembers search cmp me blk st members input)"
proof -
  let ?annotated = "map (annotate me blk st) members"
  have out: "filteredMembers search cmp me blk st members input = sort_js cmp ?annotated"
    using assms(1) by (rule filteredMembers_short)
  have perm: "mset (sort_js cmp ?annotated) = mset ?annotated"
    by (rule mset_sort_js)
  have "mset (map memberId (sort_js cmp ?annotated))
          = image_mset memberId (mset (sort_js cmp ?annotated))"
    by simp
  also have "\<dots> = image_mset memberId (mset ?annotated)"
    by (simp only: perm)
  also have "\<dots> = mset (map memberId members)"
    by (simp add: image_mset.compositionality comp_def memberId_annotate)
  finally have ids: "mset (map memberId (sort_js cmp ?annotated)) = mset (map memberId members)" .
  have total: "cmp a b \<le> 0 \<or> cmp b a \<le> 0" for a b
    using assms(2) by blast
  have trans: "cmp a b \<le> 0 \<Longrightarrow> cmp b c \<le> 0 \<Longrightarrow> cmp a c \<le> 0" for a b c
    using assms(3) by blast
  have "sorted_wrt (\<lambda>a b. cmp a b \<le> 0) (sort_js cmp ?annotated)"
    using total trans by (rule sorted_sort_js)
  with out perm ids show ?thesis
    by simp
qed

theorem short_query_lists_everyone_witness:
  "length (trim [0x00A0, 0x0062, 0x2028]) \<le> 1
   \<and> filteredMembers searchUsers createUserDefaultComparator alice (\<lambda>i. False) []
       [bob, alice] [0x00A0, 0x0062, 0x2028]
     = [(spread alice)\<lparr>displayName := ''Alice (you)''\<rparr>, spread bob]
   \<and> mset (filteredMembers searchUsers createUserDefaultComparator alice (\<lambda>i. False) []
       [bob, alice] [0x00A0, 0x0062, 0x2028])
     = mset (map (annotate alice (\<lambda>i. False) []) [bob, alice])
   \<and> mset (map memberId (filteredMembers searchUsers createUserDefaultComparator alice
       (\<lambda>i. False) [] [bob, alice] [0x00A0, 0x0062, 0x2028]))
     = mset (map memberId [bob, alice])
   \<and> sorted_wrt (\<lambda>a b. createUserDefaultComparator a b \<le> 0)
       (filteredMembers searchUsers createUserDefaultComparator alice (\<lambda>i. False) []
         [bob, alice] [0x00A0, 0x0062, 0x2028])"
proof -
  have tr: "trim [0x00A0, 0x0062, 0x2028] = [0x0062]"
    by (simp add: trim_def isWhiteSpace_def)
  then have h: "length (trim [0x00A0, 0x0062, 0x2028]) \<le> 1"
    by simp
  have out: "filteredMembers searchUsers createUserDefaultComparator alice (\<lambda>i. False) []
       [bob, alice] [0x00A0, 0x0062, 0x2028]
     = [(spread alice)\<lparr>displayName := ''Alice (you)''\<rparr>, spread bob]"
    by (simp add: filteredMembers_def tr annotate_def spread_def
        createUserDefaultComparator_def toLowerCase_def less_char_def)
  have total: "\<forall>a b. createUserDefaultComparator a b \<le> 0
                 \<or> createUserDefaultComparator b a \<le> 0"
    using createUserDefaultComparator_total by blast
  have trans: "\<forall>a b c. createUserDefaultComparator a b \<le> 0
                 \<longrightarrow> createUserDefaultComparator b c \<le> 0
                 \<longrightarrow> createUserDefaultComparator a c \<le> 0"
    using createUserDefaultComparator_trans by blast
  note t = short_query_lists_everyone [where search = searchUsers and me = alice
      and blk = "\<lambda>i. False" and st = "[]" and members = "[bob, alice]",
      OF h total trans]
  from h out t show ?thesis
    by blast
qed

text \<open>
  Claim C6. No member of the filter output carries both flags, because the blocked check
  returns before the starred check runs: a member the viewer has blocked is never
  starred in the output, whether or not its id is among the starred ids; a starred entry
  is a starred id that is neither blocked nor the viewer's; a blocked entry is blocked.
  (The search is only assumed to return entries of the list it is given.) In the witness
  Bob is blocked and his id is starred: he is listed as blocked and not as starred.
\<close>

theorem blocked_never_starred:
  assumes "\<forall>xs q. set (search xs q) \<subseteq> set xs"
  shows "\<forall>m\<in>set (filteredMembers search cmp me blk st members input).
           \<not> (isBlocked m \<and> isStarred m)
           \<and> (blk (memberId m) \<longrightarrow> \<not> isStarred m)
           \<and> (blk (memberId m) \<and> memberId m \<noteq> memberId me \<longrightarrow> isBlocked m)
           \<and> (isStarred m \<longrightarrow>
                memberId m \<in> set st \<and> \<not> blk (memberId m) \<and> memberId m \<noteq> memberId me)
           \<and> (isBlocked m \<longrightarrow> blk (memberId m))"
proof
  fix m
  assume "m \<in> set (filteredMembers search cmp me blk st members input)"
  moreover from assms have "set (search xs q) \<subseteq> set xs" for xs q
    by blast
  ultimately obtain m0 where m: "m = annotate me blk st m0"
    using filteredMembers_subset [of search cmp me blk st members input] by blast
  show "\<not> (isBlocked m \<and> isStarred m)
        \<and> (blk (memberId m) \<longrightarrow> \<not> isStarred m)
        \<and> (blk (memberId m) \<and> memberId m \<noteq> memberId me \<longrightarrow> isBlocked m)
        \<and> (isStarred m \<longrightarrow>
             memberId m \<in> set st \<and> \<not> blk (memberId m) \<and> memberId m \<noteq> memberId me)
        \<and> (isBlocked m \<longrightarrow> blk (memberId m))"
    unfolding m by (simp add: annotate_def spread_def)
qed

theorem blocked_never_starred_witness:
  "filteredMembers searchUsers createUserDefaultComparator alice (\<lambda>i. i = ''2'') [''2'']
       [bob, alice] (codeUnits ''Bo'')
     = [(spread bob)\<lparr>isBlocked := True\<rparr>]
   \<and> memberId ((spread bob)\<lparr>isBlocked := True\<rparr>) = ''2''
   \<and> memberId ((spread bob)\<lparr>isBlocked := True\<rparr>) \<in> set [''2'']
   \<and> isBlocked ((spread bob)\<lparr>isBlocked := True\<rparr>)
   \<and> \<not> isStarred ((spread bob)\<lparr>isBlocked := True\<rparr>)"
proof -
  have out: "filteredMembers searchUsers createUserDefaultComparator alice (\<lambda>i. i = ''2'')
       [''2''] [bob, alice] (codeUnits ''Bo'')
     = [(spread bob)\<lparr>isBlocked := True\<rparr>]"
    by (simp add: filteredMembers_def trim_def isWhiteSpace_def annotate_def spread_def
        searchUsers_def codeUnits_def)
  have h: "\<forall>xs q. set (searchUsers xs q) \<subseteq> set xs"
    using searchUsers_subset by blast
  from blocked_never_starred [OF h, of createUserDefaultComparator alice
      "\<lambda>i. i = ''2''" "[''2'']" "[bob, alice]" "codeUnits ''Bo''"] out
  show ?thesis by (simp add: spread_def)
qed

text \<open>
  Claim C7. Whatever the query, an entry of the filter output whose member id is the
  viewer's is the copy of a roster member with that id whose display name is the
  original one followed by " (you)". (The search is only assumed to return entries of
  the list it is given.)
\<close>

theorem viewer_entry_suffixed:
  assumes "\<forall>xs q. set (search xs q) \<subseteq> set xs"
    and "m \<in> set (filteredMembers search cmp me blk st members input)"
    and "memberId m = memberId me"
  shows "\<exists>m0\<in>set members. memberId m0 = memberId me
           \<and> m = (spread m0)\<lparr>displayName := displayName m0 @ '' (you)''\<rparr>"
proof -
  from assms(1) have "set (search xs q) \<subseteq> set xs" for xs q
    by blast
  from filteredMembers_subset [of search cmp me blk st members input, OF this] assms(2)
  obtain m0 where m0: "m0 \<in> set members" and m: "m = annotate me blk st m0"
    by blast
  from m assms(3) have "memberId m0 = memberId me"
    by (simp add: memberId_annotate)
  with m0 m annotate_self [of m0 me blk st] show ?thesis
    by auto
qed

theorem viewer_entry_suffixed_witness:
  "filteredMembers searchUsers createUserDefaultComparator alice (\<lambda>i. i = ''2'') [''2'']
       [bob, alice] (codeUnits ''Al'')
     = [(spread alice)\<lparr>displayName := ''Alice (you)''\<rparr>]
   \<and> memberId ((spread alice)\<lparr>displayName := ''Alice (you)''\<rparr>) = memberId alice
   \<and> displayName ((spread alice)\<lparr>displayName := ''Alice (you)''\<rparr>)
     = displayName alice @ '' (you)''"
proof -
  let ?out = "filteredMembers searchUsers createUserDefaultComparator alice
       (\<lambda>i. i = ''2'') [''2''] [bob, alice] (codeUnits ''Al'')"
  let ?m = "(spread alice)\<lparr>displayName := ''Alice (you)''\<rparr>"
  have out: "?out = [?m]"
    by (simp add: filteredMembers_def trim_def isWhiteSpace_def annotate_def spread_def
        searchUsers_def codeUnits_def)
  then have h2: "?m \<in> set ?out"
    by simp
  have h3: "memberId ?m = memberId alice"
    by (simp add: spread_def)
  have h1: "\<forall>xs q. set (searchUsers xs q) \<subseteq> set xs"
    using searchUsers_subset by blast
  from viewer_entry_suffixed [OF h1 h2 h3] out h3
  show ?thesis by (auto simp: spread_def)
qed

end
